theory Spec2Isabelle
  imports Complex_Main "HOL-Library.Word"
begin

text \<open>
  The chunking service of the backend (\<open>services/chunking.service.js\<close>): \<open>chunkText\<close>
  with its two modes, \<open>estimateChunks\<close> and \<open>createChunkedDocuments\<close>, as functions
  on JavaScript strings, and the properties the specification states of them.
\<close>

section \<open>JavaScript strings\<close>

text \<open>
  A JavaScript string is a sequence of UTF-16 code units; \<open>length\<close>, \<open>substring\<close>,
  \<open>trim\<close> and \<open>split\<close> all count code units. Every white space and line terminator
  character that \<open>String.prototype.trim\<close> strips lies in the Basic Multilingual Plane,
  so it is one code unit.
\<close>

type_synonym jschar = "16 word"
type_synonym jsstring = "jschar list"

definition str :: "string \<Rightarrow> jsstring" where
  "str s = map of_char s"

definition NL :: jschar where
  "NL = 0x0A"

definition is_ws :: "jschar \<Rightarrow> bool" where
  "is_ws c \<longleftrightarrow>
     c = 0x09 \<or> c = 0x0A \<or> c = 0x0B \<or> c = 0x0C \<or> c = 0x0D \<or> c = 0x20 \<or> c = 0xA0 \<or>
     c = 0x1680 \<or> (0x2000 \<le> c \<and> c \<le> 0x200A) \<or> c = 0x2028 \<or> c = 0x2029 \<or>
     c = 0x202F \<or> c = 0x205F \<or> c = 0x3000 \<or> c = 0xFEFF"

definition trim :: "jsstring \<Rightarrow> jsstring" where
  "trim s = rev (dropWhile is_ws (rev (dropWhile is_ws s)))"

text \<open>
  \<open>s.substring(a, b)\<close>: both arguments are clamped to \<open>0..s.length\<close> and swapped when
  the first exceeds the second.
\<close>

definition substring :: "jsstring \<Rightarrow> int \<Rightarrow> int \<Rightarrow> jsstring" where
  "substring s a b =
     (let n = int (length s);
          intStart = min (max a 0) n;
          intEnd = min (max b 0) n;
          from = min intStart intEnd;
          to = max intStart intEnd
      in take (nat (to - from)) (drop (nat from) s))"

text \<open>The decimal digits of a non-negative integer, as a template literal prints it.\<close>

fun decimal :: "nat \<Rightarrow> jsstring" where
  "decimal n = (if n < 10 then [of_nat (48 + n)] else decimal (n div 10) @ [of_nat (48 + n mod 10)])"

declare decimal.simps [simp del]

subsection \<open>Splitting on the regular expression for paragraph breaks\<close>

text \<open>
  \<open>match_break s\<close> is a sticky match of \<open>/\\n\\n+/\<close> at the head of \<open>s\<close>: two newlines
  and then, greedily, every newline that follows. It returns what is left after the match.
\<close>

fun match_break :: "jsstring \<Rightarrow> jsstring option" where
  "match_break (a # b # rest) =
     (if a = NL \<and> b = NL then Some (dropWhile (\<lambda>c. c = NL) rest) else None)"
| "match_break _ = None"

text \<open>
  \<open>text.split(/\\n\\n+/)\<close>: the scan of the split algorithm, with the piece collected
  since the last match and the input still to scan. Where the expression matches, the
  piece is closed and the scan goes on after the match; elsewhere one code unit moves
  into the piece. At the end of the input the last piece is closed.
\<close>

function split_scan :: "jsstring \<Rightarrow> jsstring \<Rightarrow> jsstring list" where
  "split_scan piece [] = [piece]"
| "split_scan piece (c # cs) =
     (case match_break (c # cs) of
        None \<Rightarrow> split_scan (piece @ [c]) cs
      | Some rest \<Rightarrow> piece # split_scan [] rest)"
  by pat_completeness auto
termination
proof (relation "measure (\<lambda>(piece, s). length s)")
  fix piece :: jsstring and c :: jschar and cs rest :: jsstring
  assume m: "match_break (c # cs) = Some rest"
  then obtain b r where cs: "cs = b # r" and rest: "rest = dropWhile (\<lambda>c. c = NL) r"
    by (cases cs) (auto split: if_splits)
  have "length rest \<le> length r"
    unfolding rest by (rule length_dropWhile_le)
  then show "((([], rest)), (piece, c # cs)) \<in> measure (\<lambda>(piece, s). length s)"
    by (simp add: cs)
qed simp_all

definition split_paragraphs :: "jsstring \<Rightarrow> jsstring list" where
  "split_paragraphs s = split_scan [] s"

section \<open>The chunking service\<close>

record chunk =
  c_text :: jsstring
  c_index :: nat

text \<open>
  The options object. A field is \<open>None\<close> when the caller left it out. The mode is a
  string and the numeric fields are integers, as the callers pass them; an integer may be
  zero or negative.
\<close>

record options =
  mode :: "jsstring option"
  chunkSize :: "int option"
  overlap :: "int option"

text \<open>\<open>x || d\<close> on an optional number and on an optional string: 0 and the empty string are falsy.\<close>

definition num_or :: "int option \<Rightarrow> int \<Rightarrow> int" where
  "num_or x d = (case x of None \<Rightarrow> d | Some n \<Rightarrow> if n = 0 then d else n)"

definition str_or :: "jsstring option \<Rightarrow> jsstring \<Rightarrow> jsstring" where
  "str_or x d = (case x of None \<Rightarrow> d | Some s \<Rightarrow> if s = [] then d else s)"

text \<open>The guard \<open>!text || text.trim().length === 0\<close>.\<close>

definition is_blank :: "jsstring \<Rightarrow> bool" where
  "is_blank s \<longleftrightarrow> s = [] \<or> length (trim s) = 0"

subsection \<open>semanticChunk\<close>

definition semanticChunk :: "jsstring \<Rightarrow> chunk list" where
  "semanticChunk s =
     (if is_blank s then []
      else
        let paragraphs = filter (\<lambda>p. length p > 0) (map trim (split_paragraphs s))
        in if length paragraphs = 0 then [\<lparr>c_text = trim s, c_index = 0\<rparr>]
           else map (\<lambda>(index, paragraph). \<lparr>c_text = paragraph, c_index = index\<rparr>)
                  (enumerate 0 paragraphs))"

subsection \<open>configurableChunk\<close>

record loop_state =
  startIndex :: int
  chunkIndex :: nat
  chunks :: "chunk list"

text \<open>One pass through the body of the \<open>while\<close> loop, up to the assignment to \<open>startIndex\<close>.\<close>

definition loop_body :: "jsstring \<Rightarrow> int \<Rightarrow> int \<Rightarrow> loop_state \<Rightarrow> loop_state" where
  "loop_body s cs ov st =
     (let endIndex = min (startIndex st + cs) (int (length s));
          chunkText = substring s (startIndex st) endIndex;
          st1 = (if length (trim chunkText) > 0
                 then st\<lparr>chunks := chunks st @ [\<lparr>c_text = trim chunkText, c_index = chunkIndex st\<rparr>],
                         chunkIndex := chunkIndex st + 1\<rparr>
                 else st)
      in st1\<lparr>startIndex := endIndex - ov\<rparr>)"

text \<open>
  The \<open>while\<close> loop with its \<open>break\<close>. The loop may run forever; \<open>None\<close> is the
  value of a run that does not return.
\<close>

partial_function (option) chunk_loop ::
  "jsstring \<Rightarrow> int \<Rightarrow> int \<Rightarrow> loop_state \<Rightarrow> chunk list option" where
  "chunk_loop s cs ov st =
     (if startIndex st < int (length s)
      then (if startIndex (loop_body s cs ov st) \<ge> int (length s)
            then Some (chunks (loop_body s cs ov st))
            else chunk_loop s cs ov (loop_body s cs ov st))
      else Some (chunks st))"

declare chunk_loop.simps [code]

text \<open>
  The same loop run for at most \<open>n\<close> passes: it has returned a list, or it is still
  running, at the head of the loop, in the state it has reached.
\<close>

datatype loop_result = Running loop_state | Returned "chunk list"

fun chunk_loop_bounded :: "nat \<Rightarrow> jsstring \<Rightarrow> int \<Rightarrow> int \<Rightarrow> loop_state \<Rightarrow> loop_result" where
  "chunk_loop_bounded 0 s cs ov st = Running st"
| "chunk_loop_bounded (Suc n) s cs ov st =
     (if startIndex st < int (length s)
      then (if startIndex (loop_body s cs ov st) \<ge> int (length s)
            then Returned (chunks (loop_body s cs ov st))
            else chunk_loop_bounded n s cs ov (loop_body s cs ov st))
      else Returned (chunks st))"

definition init_state :: loop_state where
  "init_state = \<lparr>startIndex = 0, chunkIndex = 0, chunks = []\<rparr>"

definition configurableChunk :: "jsstring \<Rightarrow> options \<Rightarrow> chunk list option" where
  "configurableChunk s opts =
     (let cs = num_or (chunkSize opts) 500;
          ov = num_or (overlap opts) 50
      in if is_blank s then Some [] else chunk_loop s cs ov init_state)"

subsection \<open>chunkText\<close>

definition chunkText :: "jsstring \<Rightarrow> options \<Rightarrow> chunk list option" where
  "chunkText s opts =
     (let m = str_or (mode opts) (str ''configurable'')
      in if m = str ''semantic'' then Some (semanticChunk s) else configurableChunk s opts)"

subsection \<open>estimateChunks\<close>

text \<open>
  The numbers \<open>estimateChunks\<close> can return: an integer, or what a division by zero
  leaves. The operands stay far below \<open>2^53\<close>, where the quotient of two integers,
  rounded to a double and then up to an integer, is the ceiling of the exact quotient.
\<close>

datatype jsnumber = Num int | Infinity | NegInfinity | NaN

text \<open>\<open>Math.ceil(a / b)\<close> on integers.\<close>

definition ceil_quot :: "int \<Rightarrow> int \<Rightarrow> jsnumber" where
  "ceil_quot a b =
     (if b = 0 then (if a > 0 then Infinity else if a < 0 then NegInfinity else NaN)
      else Num (- ((- a) div b)))"

definition plus_one :: "jsnumber \<Rightarrow> jsnumber" where
  "plus_one x = (case x of Num n \<Rightarrow> Num (n + 1) | y \<Rightarrow> y)"

definition estimateChunks :: "jsstring \<Rightarrow> options \<Rightarrow> jsnumber" where
  "estimateChunks s opts =
     (let m = str_or (mode opts) (str ''configurable'')
      in if is_blank s then Num 0
         else if m = str ''semantic''
         then (let paragraphs = filter (\<lambda>p. length (trim p) > 0) (split_paragraphs s)
               in Num (max 1 (int (length paragraphs))))
         else (let cs = num_or (chunkSize opts) 500;
                   ov = num_or (overlap opts) 50;
                   textLength = int (length s)
               in if textLength \<le> cs then Num 1
                  else (let step = cs - ov
                        in plus_one (ceil_quot (textLength - cs) step))))"

subsection \<open>createChunkedDocuments\<close>

text \<open>
  A metadata value is a string, a number, or any other value the caller put into
  \<open>baseMetadata\<close>; the metadata object is a map from property names to values.
\<close>

datatype 'a jsvalue = VStr jsstring | VNum int | VOther 'a

record 'a document =
  doc_id :: jsstring
  doc_text :: jsstring
  metadata :: "jsstring \<rightharpoonup> 'a jsvalue"

definition createChunkedDocuments ::
  "jsstring \<Rightarrow> jsstring \<Rightarrow> options \<Rightarrow> (jsstring \<rightharpoonup> 'a jsvalue) \<Rightarrow> 'a document list option" where
  "createChunkedDocuments baseId s opts baseMetadata =
     (case chunkText s opts of
        None \<Rightarrow> None
      | Some cks \<Rightarrow>
          (let totalChunks = length cks
           in Some (map (\<lambda>(index, ck).
                      \<lparr>doc_id = baseId @ str ''_chunk_'' @ decimal (index + 1),
                       doc_text = c_text ck,
                       metadata = baseMetadata
                         (str ''parent_doc_id'' \<mapsto> VStr baseId,
                          str ''chunk_index'' \<mapsto> VNum (int (index + 1)),
                          str ''total_chunks'' \<mapsto> VNum (int totalChunks),
                          str ''chunk_mode'' \<mapsto> VStr (str_or (mode opts) (str ''configurable'')))\<rparr>)
                    (enumerate 0 cks))))"

section \<open>The sliding window, as the specification words it\<close>





section \<open>Notions of the specification\<close>

text \<open>Chunks numbered from 0 in the order of their texts.\<close>

definition numbered :: "jsstring list \<Rightarrow> chunk list" where
  "numbered ps = map (\<lambda>i. \<lparr>c_text = ps ! i, c_index = i\<rparr>) [0..<length ps]"


text \<open>
  The text split on runs of two or more consecutive newlines: where a newline is followed
  by a newline a segment ends, the whole run of newlines is dropped and the next segment
  starts; every other code unit belongs to the segment it stands in.
\<close>

function paragraph_segments :: "jsstring \<Rightarrow> jsstring list" where
  "paragraph_segments [] = [[]]"
| "paragraph_segments (c # cs) =
     (if c = NL \<and> cs \<noteq> [] \<and> hd cs = NL
      then [] # paragraph_segments (dropWhile (\<lambda>x. x = NL) cs)
      else (case paragraph_segments cs of
              [] \<Rightarrow> [[c]]
            | p # ps \<Rightarrow> (c # p) # ps))"
  by pat_completeness auto
termination
  by (relation "measure length") (auto simp: le_imp_less_Suc length_dropWhile_le)

text \<open>A paragraph break: two newlines in a row somewhere in the text.\<close>

fun has_break :: "jsstring \<Rightarrow> bool" where
  "has_break (a # b # rest) = ((a = NL \<and> b = NL) \<or> has_break (b # rest))"
| "has_break _ = False"

text \<open>The closed form of the estimate, on the numbers it is given.\<close>

definition claimed_estimate :: "int \<Rightarrow> int \<Rightarrow> int \<Rightarrow> int" where
  "claimed_estimate len cs ov =
     (if len \<le> cs then 1 else \<lceil>real_of_int (len - cs) / real_of_int (cs - ov)\<rceil> + 1)"

text \<open>The four lineage fields of a document.\<close>

definition lineage :: "jsstring \<Rightarrow> nat \<Rightarrow> nat \<Rightarrow> jsstring \<Rightarrow> (jsstring \<rightharpoonup> 'a jsvalue)" where
  "lineage baseId ordinal totalChunks m =
     [str ''parent_doc_id'' \<mapsto> VStr baseId,
      str ''chunk_index'' \<mapsto> VNum (int ordinal),
      str ''total_chunks'' \<mapsto> VNum (int totalChunks),
      str ''chunk_mode'' \<mapsto> VStr m]"

text \<open>The mode a call really chunks with, and the \<open>chunk_mode\<close> field of a document.\<close>

definition mode_used :: "options \<Rightarrow> jsstring" where
  "mode_used opts =
     (if str_or (mode opts) (str ''configurable'') = str ''semantic''
      then str ''semantic'' else str ''configurable'')"

definition chunk_mode_of :: "'a document \<Rightarrow> 'a jsvalue option" where
  "chunk_mode_of d = metadata d (str ''chunk_mode'')"

section \<open>Strings, trimming and splitting\<close>

lemma trim_Nil_iff: "trim s = [] \<longleftrightarrow> (\<forall>c\<in>set s. is_ws c)"
proof
  assume "trim s = []"
  then have d: "\<forall>c\<in>set (dropWhile is_ws s). is_ws c"
    by (simp add: trim_def)
  show "\<forall>c\<in>set s. is_ws c"
  proof (cases "dropWhile is_ws s")
    case Nil
    then show ?thesis by simp
  next
    case (Cons x xs)
    then have "\<not> is_ws x" using hd_dropWhile[of is_ws s] by simp
    with d Cons show ?thesis by simp
  qed
next
  assume "\<forall>c\<in>set s. is_ws c"
  then have e: "dropWhile is_ws s = []" by simp
  show "trim s = []" unfolding trim_def e by simp
qed

lemma is_blank_iff: "is_blank s \<longleftrightarrow> (\<forall>c\<in>set s. is_ws c)"
  by (auto simp: is_blank_def trim_Nil_iff)

lemma is_ws_NL: "is_ws NL"
  by (simp add: is_ws_def NL_def)

lemma match_break_ws:
  "match_break s = Some rest \<Longrightarrow> (\<forall>c\<in>set rest. is_ws c) \<Longrightarrow> (\<forall>c\<in>set s. is_ws c)"
proof (cases s rule: match_break.cases)
  case (1 a b r)
  assume m: "match_break s = Some rest" and w: "\<forall>c\<in>set rest. is_ws c"
  from m 1 have ab: "a = NL" "b = NL" and rest: "rest = dropWhile (\<lambda>c. c = NL) r"
    by (auto split: if_splits)
  have "\<forall>c\<in>set r. is_ws c"
  proof
    fix c assume "c \<in> set r"
    then have "c \<in> set (takeWhile (\<lambda>c. c = NL) r) \<or> c \<in> set rest"
      unfolding rest by (metis Un_iff set_append takeWhile_dropWhile_id)
    then show "is_ws c"
      using w is_ws_NL by (auto dest: set_takeWhileD)
  qed
  with 1 ab show ?thesis by (simp add: is_ws_NL)
qed simp_all

lemma split_scan_blank:
  "\<forall>p\<in>set (split_scan piece s). trim p = [] \<Longrightarrow> (\<forall>c\<in>set (piece @ s). is_ws c)"
proof (induction piece s rule: split_scan.induct)
  case (1 piece)
  then show ?case by (simp add: trim_Nil_iff)
next
  case (2 piece c cs)
  show ?case
  proof (cases "match_break (c # cs)")
    case None
    with 2 show ?thesis by simp
  next
    case (Some rest)
    with 2 have p: "trim piece = []" and r: "\<forall>c\<in>set rest. is_ws c"
      by simp_all
    from match_break_ws[OF Some r] p show ?thesis
      by (auto simp: trim_Nil_iff)
  qed
qed

lemma match_break_subset: "match_break s = Some rest \<Longrightarrow> set rest \<subseteq> set s"
  by (cases s rule: match_break.cases) (auto split: if_splits dest: set_dropWhileD)

lemma split_scan_subset: "p \<in> set (split_scan piece s) \<Longrightarrow> set p \<subseteq> set piece \<union> set s"
proof (induction piece s rule: split_scan.induct)
  case (1 piece)
  then show ?case by simp
next
  case (2 piece c cs)
  show ?case
  proof (cases "match_break (c # cs)")
    case None
    with 2 show ?thesis by auto
  next
    case (Some rest)
    with 2 have "p = piece \<or> set p \<subseteq> set rest" by auto
    with match_break_subset[OF Some] show ?thesis by auto
  qed
qed

lemma paragraph_segments_not_Nil: "paragraph_segments s \<noteq> []"
  by (induction s rule: paragraph_segments.induct) (auto split: list.splits)

lemma split_scan_segments:
  "split_scan piece s = (piece @ hd (paragraph_segments s)) # tl (paragraph_segments s)"
proof (induction piece s rule: split_scan.induct)
  case (1 piece)
  show ?case by simp
next
  case (2 piece c cs)
  show ?case
  proof (cases "match_break (c # cs)")
    case None
    then have n: "\<not> (c = NL \<and> cs \<noteq> [] \<and> hd cs = NL)"
      by (cases cs) auto
    obtain p ps where ps: "paragraph_segments cs = p # ps"
      using paragraph_segments_not_Nil[of cs] by (cases "paragraph_segments cs") auto
    from 2(1)[OF None] None n ps show ?thesis by simp
  next
    case (Some rest)
    then obtain b r where cs: "cs = b # r" and nl: "c = NL" "b = NL"
      and rest: "rest = dropWhile (\<lambda>x. x = NL) r"
      by (cases cs) (auto split: if_splits)
    obtain p ps where ps: "paragraph_segments rest = p # ps"
      using paragraph_segments_not_Nil[of rest] by (cases "paragraph_segments rest") auto
    from 2(2)[OF Some] Some cs nl rest ps show ?thesis by simp
  qed
qed

lemma split_paragraphs_segments: "split_paragraphs s = paragraph_segments s"
  using paragraph_segments_not_Nil[of s]
  by (simp add: split_paragraphs_def split_scan_segments)

lemma paragraphs_blank:
  assumes "is_blank s"
  shows "filter (\<lambda>p. p \<noteq> []) (map trim (split_paragraphs s)) = []"
proof -
  have "trim p = []" if "p \<in> set (split_scan [] s)" for p
    using split_scan_subset[OF that] assms by (auto simp: trim_Nil_iff is_blank_iff)
  then show ?thesis by (simp add: filter_empty_conv split_paragraphs_def)
qed

lemma paragraphs_nonempty:
  assumes "\<not> is_blank s"
  shows "filter (\<lambda>p. length p > 0) (map trim (split_paragraphs s)) \<noteq> []"
proof
  assume "filter (\<lambda>p. length p > 0) (map trim (split_paragraphs s)) = []"
  then have "\<forall>p\<in>set (split_scan [] s). trim p = []"
    by (auto simp: filter_empty_conv split_paragraphs_def)
  from split_scan_blank[OF this] assms show False
    by (simp add: is_blank_iff)
qed

lemma split_scan_no_break: "\<not> has_break s \<Longrightarrow> split_scan piece s = [piece @ s]"
proof (induction s arbitrary: piece)
  case Nil
  then show ?case by simp
next
  case (Cons c cs)
  then have "match_break (c # cs) = None"
    by (cases cs) auto
  moreover from Cons.prems have "\<not> has_break cs"
    by (cases cs) auto
  ultimately show ?case using Cons.IH[of "piece @ [c]"] by simp
qed

lemma not_blank_length: "\<not> is_blank s \<Longrightarrow> 0 < length s"
  by (auto simp: is_blank_def)

lemma mode_configurable:
  "m \<noteq> Some (str ''semantic'') \<Longrightarrow> str_or m (str ''configurable'') \<noteq> str ''semantic''"
  by (auto simp: str_or_def str_def split: option.splits)


section \<open>Numbered chunks\<close>



lemma enumerate_numbered:
  "map (\<lambda>(index, paragraph). \<lparr>c_text = paragraph, c_index = index\<rparr>) (enumerate 0 ps) = numbered ps"
  by (rule nth_equalityI) (simp_all add: numbered_def nth_enumerate_eq)

section \<open>The loop of configurableChunk\<close>

lemma loop_body_start:
  "startIndex (loop_body s cs ov st) = min (startIndex st + cs) (int (length s)) - ov"
  by (simp add: loop_body_def Let_def)

lemma chunk_loop_stuck:
  assumes ret: "chunk_loop s cs ov st = Some r"
  shows "\<not> (0 < ov \<and> startIndex st < int (length s))"
proof (rule chunk_loop.raw_induct
    [where P = "\<lambda>s cs ov st r. \<not> (0 < ov \<and> startIndex st < int (length s))", OF _ ret])
  fix f :: "jsstring \<Rightarrow> int \<Rightarrow> int \<Rightarrow> loop_state \<Rightarrow> chunk list option"
    and s cs ov st r
  assume IH: "\<And>s cs ov st r. f s cs ov st = Some r \<Longrightarrow> \<not> (0 < ov \<and> startIndex st < int (length s))"
    and step: "(if startIndex st < int (length s)
      then (if startIndex (loop_body s cs ov st) \<ge> int (length s)
            then Some (chunks (loop_body s cs ov st))
            else f s cs ov (loop_body s cs ov st))
      else Some (chunks st)) = Some r"
  show "\<not> (0 < ov \<and> startIndex st < int (length s))"
  proof
    assume a: "0 < ov \<and> startIndex st < int (length s)"
    then have next_lt: "startIndex (loop_body s cs ov st) < int (length s)"
      by (simp add: loop_body_start min_def)
    with a step have "f s cs ov (loop_body s cs ov st) = Some r"
      by simp
    from IH[OF this] a next_lt show False
      by simp
  qed
qed






section \<open>Documents\<close>

lemma nth_docs:
  assumes "chunkText s opts = Some cks" and "i < length cks"
  shows "createChunkedDocuments baseId s opts meta = Some docs \<Longrightarrow>
     docs ! i = \<lparr>doc_id = baseId @ str ''_chunk_'' @ decimal (i + 1),
                 doc_text = c_text (cks ! i),
                 metadata = meta
                   (str ''parent_doc_id'' \<mapsto> VStr baseId,
                    str ''chunk_index'' \<mapsto> VNum (int (i + 1)),
                    str ''total_chunks'' \<mapsto> VNum (int (length cks)),
                    str ''chunk_mode'' \<mapsto> VStr (str_or (mode opts) (str ''configurable'')))\<rparr>"
  using assms by (auto simp: createChunkedDocuments_def Let_def nth_enumerate_eq)

lemma length_docs:
  assumes "chunkText s opts = Some cks"
  shows "createChunkedDocuments baseId s opts meta = Some docs \<Longrightarrow> length docs = length cks"
  using assms by (auto simp: createChunkedDocuments_def Let_def)

lemma docs_defined:
  "(createChunkedDocuments baseId s opts meta = None) = (chunkText s opts = None)"
  by (simp add: createChunkedDocuments_def Let_def split: option.splits)

lemma keys_distinct:
  "str ''parent_doc_id'' \<noteq> str ''chunk_index''"
  "str ''parent_doc_id'' \<noteq> str ''total_chunks''"
  "str ''parent_doc_id'' \<noteq> str ''chunk_mode''"
  "str ''chunk_index'' \<noteq> str ''total_chunks''"
  "str ''chunk_index'' \<noteq> str ''chunk_mode''"
  "str ''total_chunks'' \<noteq> str ''chunk_mode''"
  by (simp_all add: str_def)

section \<open>First chunk, returned lists and runs of the loop\<close>





lemma chunk_loop_bounded_Returned:
  "chunk_loop_bounded n s cs ov st = Returned r \<Longrightarrow> chunk_loop s cs ov st = Some r"
proof (induction n arbitrary: st)
  case 0
  then show ?case by simp
next
  case (Suc n)
  show ?case
  proof (cases "startIndex st < int (length s) \<and> \<not> int (length s) \<le> startIndex (loop_body s cs ov st)")
    case True
    with Suc.prems have "chunk_loop_bounded n s cs ov (loop_body s cs ov st) = Returned r"
      by simp
    from Suc.IH[OF this] True show ?thesis
      by (subst chunk_loop.simps) simp
  next
    case False
    with Suc.prems show ?thesis
      by (subst chunk_loop.simps) (auto split: if_splits)
  qed
qed



lemma mode_used_cases: "mode_used opts = str ''semantic'' \<or> mode_used opts = str ''configurable''"
  by (simp add: mode_used_def)

section \<open>The claims\<close>

subsection \<open>C1: termination of configurable chunking\<close>

text \<open>
  C1 says that for every text that is not blank and every configurable-mode options with
  a positive \<open>chunkSize\<close> and \<open>0 \<le> overlap < chunkSize\<close>, \<open>chunkText\<close> terminates
  and returns chunks indexed \<open>0..N-1\<close> with \<open>N \<ge> 1\<close>. The code does the opposite on
  every such input. A window never ends beyond \<open>text.length\<close>, and the next start is
  the end minus the overlap that is used, which is at least 1 (a given 0 becomes 50): the
  start stays below \<open>text.length\<close>, so neither the \<open>break\<close> nor the loop condition
  ever ends the loop. Whenever the text is not blank, the mode is not semantic and the
  overlap is absent or not negative, whatever the chunk size, the call does not return.
\<close>

theorem chunkText_configurable_diverges:
  assumes "\<not> is_blank s" and "mode opts \<noteq> Some (str ''semantic'')"
    and "overlap opts = None \<or> (\<exists>ov. overlap opts = Some ov \<and> 0 \<le> ov)"
  shows "chunkText s opts = None"
proof (rule ccontr)
  assume "chunkText s opts \<noteq> None"
  then obtain r where r: "chunkText s opts = Some r" by auto
  let ?ov = "num_or (overlap opts) 50"
  have pos: "0 < ?ov" using assms(3) by (auto simp: num_or_def)
  from r assms(1) mode_configurable[OF assms(2)]
  have "chunk_loop s (num_or (chunkSize opts) 500) ?ov init_state = Some r"
    by (simp add: chunkText_def configurableChunk_def Let_def)
  from chunk_loop_stuck[OF this] pos not_blank_length[OF assms(1)]
  show False by (simp add: init_state_def)
qed

theorem chunkText_configurable_diverges_witness:
  "\<not> is_blank (str ''abc'')
   \<and> chunkText (str ''abc'') \<lparr>mode = Some (str ''configurable''), chunkSize = Some 2, overlap = Some 1\<rparr> = None
   \<and> chunkText (str ''abc'') \<lparr>mode = None, chunkSize = None, overlap = None\<rparr> = None"
proof -
  have b: "\<not> is_blank (str ''abc'')" by code_simp
  have m: "str ''configurable'' \<noteq> str ''semantic''" by (simp add: str_def)
  have "chunkText (str ''abc'') \<lparr>mode = Some (str ''configurable''), chunkSize = Some 2, overlap = Some 1\<rparr> = None"
    by (rule chunkText_configurable_diverges[OF b]) (simp_all add: m)
  moreover have "chunkText (str ''abc'') \<lparr>mode = None, chunkSize = None, overlap = None\<rparr> = None"
    by (rule chunkText_configurable_diverges[OF b]) simp_all
  ultimately show ?thesis using b by simp
qed

subsection \<open>C2: the sliding window\<close>




subsection \<open>C3: semantic mode\<close>

text \<open>
  C3: in semantic mode, for every text, \<open>chunkText\<close> returns exactly the non-empty
  trimmed segments of the text split on runs of two or more newlines, in their order, with
  indices \<open>0, 1, 2, ...\<close>; and a text that is not blank and has no paragraph break gives
  the single chunk of the whole trimmed text, with index 0.
\<close>

theorem semanticChunk_paragraphs:
  "chunkText s (opts\<lparr>mode := Some (str ''semantic'')\<rparr>)
     = Some (numbered (filter (\<lambda>p. p \<noteq> []) (map trim (paragraph_segments s))))
   \<and> (\<not> is_blank s \<and> \<not> has_break s \<longrightarrow>
        chunkText s (opts\<lparr>mode := Some (str ''semantic'')\<rparr>) = Some [\<lparr>c_text = trim s, c_index = 0\<rparr>])"
proof -
  let ?ps = "filter (\<lambda>p. p \<noteq> []) (map trim (split_paragraphs s))"
  have m: "str_or (Some (str ''semantic'')) (str ''configurable'') = str ''semantic''"
    by (simp add: str_or_def str_def)
  have sem: "semanticChunk s = numbered ?ps"
  proof (cases "is_blank s")
    case True
    from paragraphs_blank[OF this] True show ?thesis
      by (simp add: semanticChunk_def numbered_def)
  next
    case False
    from paragraphs_nonempty[OF this] False show ?thesis
      by (simp add: semanticChunk_def Let_def enumerate_numbered)
  qed
  have one: "semanticChunk s = [\<lparr>c_text = trim s, c_index = 0\<rparr>]" if "\<not> is_blank s" "\<not> has_break s"
  proof -
    from that(2) have "split_paragraphs s = [s]"
      by (simp add: split_paragraphs_def split_scan_no_break)
    moreover from that(1) have "trim s \<noteq> []" by (simp add: is_blank_def)
    ultimately show ?thesis unfolding sem by (simp add: numbered_def)
  qed
  show ?thesis using sem one by (simp add: chunkText_def m split_paragraphs_segments)
qed

theorem semanticChunk_paragraphs_witness:
  "chunkText (str ''Para one.\<newline>\<newline>Para two.\<newline>\<newline>Para three.'')
       \<lparr>mode = Some (str ''semantic''), chunkSize = None, overlap = None\<rparr>
     = Some [\<lparr>c_text = str ''Para one.'', c_index = 0\<rparr>, \<lparr>c_text = str ''Para two.'', c_index = 1\<rparr>,
             \<lparr>c_text = str ''Para three.'', c_index = 2\<rparr>]
   \<and> \<not> is_blank (str ''one line'') \<and> \<not> has_break (str ''one line'')
   \<and> chunkText (str ''one line'') \<lparr>mode = Some (str ''semantic''), chunkSize = None, overlap = None\<rparr>
     = Some [\<lparr>c_text = str ''one line'', c_index = 0\<rparr>]"
proof -
  let ?opts = "\<lparr>mode = Some (str ''semantic''), chunkSize = None, overlap = None\<rparr>"
  let ?s = "str ''Para one.\<newline>\<newline>Para two.\<newline>\<newline>Para three.''"
  have u: "?opts\<lparr>mode := Some (str ''semantic'')\<rparr> = ?opts" by simp
  have e: "numbered (filter (\<lambda>p. p \<noteq> []) (map trim (paragraph_segments ?s)))
     = [\<lparr>c_text = str ''Para one.'', c_index = 0\<rparr>, \<lparr>c_text = str ''Para two.'', c_index = 1\<rparr>,
        \<lparr>c_text = str ''Para three.'', c_index = 2\<rparr>]"
    by code_simp
  have b: "\<not> is_blank (str ''one line'')" and h: "\<not> has_break (str ''one line'')"
    and t: "trim (str ''one line'') = str ''one line''"
    by code_simp+
  from semanticChunk_paragraphs[of ?s ?opts]
  have 1: "chunkText ?s ?opts = Some (numbered (filter (\<lambda>p. p \<noteq> []) (map trim (paragraph_segments ?s))))"
    unfolding u by (rule conjunct1)
  from semanticChunk_paragraphs[of "str ''one line''" ?opts] b h
  have 2: "chunkText (str ''one line'') ?opts = Some [\<lparr>c_text = trim (str ''one line''), c_index = 0\<rparr>]"
    unfolding u by blast
  from 1 2 b h show ?thesis unfolding e t by simp
qed

subsection \<open>C4: blank text\<close>

text \<open>
  C4: for every text that is empty or only white space, \<open>chunkText\<close> returns the empty
  list, in semantic and in configurable mode, and \<open>estimateChunks\<close> returns 0.
\<close>

theorem blank_text_gives_nothing:
  assumes "\<forall>c\<in>set s. is_ws c"
  shows "chunkText s opts = Some [] \<and> estimateChunks s opts = Num 0"
proof -
  from assms have "is_blank s" by (simp add: is_blank_iff)
  then show ?thesis
    by (simp add: chunkText_def semanticChunk_def configurableChunk_def estimateChunks_def Let_def)
qed

theorem blank_text_gives_nothing_witness:
  "is_blank (str '' \<newline>  '')
   \<and> chunkText (str '' \<newline>  '') \<lparr>mode = Some (str ''semantic''), chunkSize = None, overlap = None\<rparr> = Some []
   \<and> chunkText (str '' \<newline>  '') \<lparr>mode = None, chunkSize = Some 10, overlap = Some 2\<rparr> = Some []
   \<and> estimateChunks (str '' \<newline>  '') \<lparr>mode = None, chunkSize = Some 10, overlap = Some 2\<rparr> = Num 0
   \<and> chunkText [] \<lparr>mode = None, chunkSize = None, overlap = None\<rparr> = Some []"
proof -
  have b: "\<forall>c\<in>set (str '' \<newline>  ''). is_ws c" by code_simp
  have e: "\<forall>c\<in>set ([] :: jsstring). is_ws c" by simp
  from b have "is_blank (str '' \<newline>  '')" by (simp only: is_blank_iff)
  with blank_text_gives_nothing[OF b, of "\<lparr>mode = Some (str ''semantic''), chunkSize = None, overlap = None\<rparr>"]
    blank_text_gives_nothing[OF b, of "\<lparr>mode = None, chunkSize = Some 10, overlap = Some 2\<rparr>"]
    blank_text_gives_nothing[OF e, of "\<lparr>mode = None, chunkSize = None, overlap = None\<rparr>"]
  show ?thesis by simp
qed

subsection \<open>C5: the estimate in configurable mode\<close>

text \<open>
  C5 as it stands fails when the caller passes \<open>overlap = 0\<close>: the code then computes
  with 50. A text of three letters with \<open>chunkSize = 1\<close> and \<open>overlap = 0\<close> gets the
  estimate 1, where the closed form on the caller's numbers gives 3.
\<close>

theorem estimateChunks_zero_overlap_counterexample:
  "\<not> is_blank (str ''abc'')
   \<and> estimateChunks (str ''abc'') \<lparr>mode = None, chunkSize = Some 1, overlap = Some 0\<rparr>
       \<noteq> Num (claimed_estimate (int (length (str ''abc''))) 1 0)
   \<and> estimateChunks (str ''abc'') \<lparr>mode = None, chunkSize = Some 1, overlap = Some 0\<rparr> = Num 1
   \<and> claimed_estimate (int (length (str ''abc''))) 1 0 = 3"
proof -
  have b: "\<not> is_blank (str ''abc'')" by code_simp
  have e: "estimateChunks (str ''abc'') \<lparr>mode = None, chunkSize = Some 1, overlap = Some 0\<rparr> = Num 1"
    by code_simp
  have c: "claimed_estimate (int (length (str ''abc''))) 1 0 = 3"
    by (simp add: claimed_estimate_def str_def)
  from b e c show ?thesis by simp
qed

text \<open>
  C5, amended: in configurable mode, for every text that is not blank and every given
  positive \<open>chunkSize\<close> and \<open>0 \<le> overlap < chunkSize\<close>, \<open>estimateChunks\<close> returns 1
  when \<open>text.length \<le> chunkSize\<close> and otherwise
  \<open>ceil((text.length - chunkSize) / (chunkSize - o)) + 1\<close>, where \<open>o\<close> is the overlap
  that is used: the given one when it is positive, 50 when it is 0. When
  \<open>chunkSize = o\<close> (a chunk size of 50 with overlap 0) the quotient, and the result, is
  \<open>Infinity\<close>.
\<close>

theorem estimateChunks_configurable:
  assumes "\<not> is_blank s" and "m \<noteq> Some (str ''semantic'')"
    and "0 < cs" and "0 \<le> ov" and "ov < cs"
  shows "estimateChunks s \<lparr>mode = m, chunkSize = Some cs, overlap = Some ov\<rparr> =
           (let used = (if ov = 0 then 50 else ov)
            in if int (length s) > cs \<and> cs = used then Infinity
               else Num (claimed_estimate (int (length s)) cs used))"
proof -
  define used where "used = (if ov = 0 then 50 else ov)"
  define len where "len = int (length s)"
  have est: "estimateChunks s \<lparr>mode = m, chunkSize = Some cs, overlap = Some ov\<rparr> =
         (if len \<le> cs then Num 1 else plus_one (ceil_quot (len - cs) (cs - used)))"
    using assms(1,3) mode_configurable[OF assms(2)]
    by (simp add: estimateChunks_def Let_def num_or_def used_def len_def)
  have "(if len \<le> cs then Num 1 else plus_one (ceil_quot (len - cs) (cs - used))) =
        (if len > cs \<and> cs = used then Infinity else Num (claimed_estimate len cs used))"
  proof (cases "len \<le> cs")
    case True
    then show ?thesis by (simp add: claimed_estimate_def)
  next
    case long: False
    show ?thesis
    proof (cases "cs = used")
      case True
      with long show ?thesis by (simp add: ceil_quot_def plus_one_def)
    next
      case False
      then have "ceil_quot (len - cs) (cs - used) = Num \<lceil>real_of_int (len - cs) / real_of_int (cs - used)\<rceil>"
        by (simp only: ceil_quot_def ceiling_divide_eq_div) simp
      with long False show ?thesis
        by (simp only: claimed_estimate_def plus_one_def if_False jsnumber.case) simp
    qed
  qed
  with est show ?thesis
    by (simp only: Let_def used_def len_def)
qed

theorem estimateChunks_configurable_witness:
  "\<not> is_blank (str ''abcdefgh'') \<and> estimateChunks (str ''abcdefgh'') \<lparr>mode = None, chunkSize = Some 3, overlap = Some 1\<rparr> = Num 4"
proof -
  have b: "\<not> is_blank (str ''abcdefgh'')" by code_simp
  have l: "int (length (str ''abcdefgh'')) = 8" by (simp add: str_def)
  show ?thesis
    using b estimateChunks_configurable[OF b, of None 3 1]
    by (simp add: claimed_estimate_def l)
qed

subsection \<open>C6: the documents made from the chunks\<close>

text \<open>
  C6: for every \<open>baseId\<close>, text, options and \<open>baseMetadata\<close>,
  \<open>createChunkedDocuments\<close> returns as many documents as \<open>chunkText\<close> returns chunks
  (and does not return where \<open>chunkText\<close> does not); the \<open>i\<close>-th document, from 0, has the
  id \<open>{baseId}_chunk_{i+1}\<close>, the text of the \<open>i\<close>-th chunk, \<open>parent_doc_id = baseId\<close>,
  \<open>chunk_index = i + 1\<close> and \<open>total_chunks\<close> equal to that common length; no chunks give
  no documents.
\<close>

theorem createChunkedDocuments_lineage:
  "(chunkText s opts = None \<longrightarrow> createChunkedDocuments baseId s opts meta = None)
   \<and> (chunkText s opts = Some cks \<longrightarrow>
        (\<exists>docs. createChunkedDocuments baseId s opts meta = Some docs
           \<and> length docs = length cks
           \<and> (cks = [] \<longrightarrow> docs = [])
           \<and> (\<forall>i<length cks.
                 doc_id (docs ! i) = baseId @ str ''_chunk_'' @ decimal (i + 1)
               \<and> doc_text (docs ! i) = c_text (cks ! i)
               \<and> metadata (docs ! i) (str ''parent_doc_id'') = Some (VStr baseId)
               \<and> metadata (docs ! i) (str ''chunk_index'') = Some (VNum (int i + 1))
               \<and> metadata (docs ! i) (str ''total_chunks'') = Some (VNum (int (length cks))))))"
proof (intro conjI impI)
  assume "chunkText s opts = None"
  then show "createChunkedDocuments baseId s opts meta = None" by (simp add: docs_defined)
next
  assume c: "chunkText s opts = Some cks"
  then obtain docs where d: "createChunkedDocuments baseId s opts meta = Some docs"
    using docs_defined[of baseId s opts meta] by (cases "createChunkedDocuments baseId s opts meta") auto
  have l: "length docs = length cks" by (rule length_docs[OF c d])
  have "\<forall>i<length cks.
                 doc_id (docs ! i) = baseId @ str ''_chunk_'' @ decimal (i + 1)
               \<and> doc_text (docs ! i) = c_text (cks ! i)
               \<and> metadata (docs ! i) (str ''parent_doc_id'') = Some (VStr baseId)
               \<and> metadata (docs ! i) (str ''chunk_index'') = Some (VNum (int i + 1))
               \<and> metadata (docs ! i) (str ''total_chunks'') = Some (VNum (int (length cks)))"
    by (simp add: nth_docs[OF c _ d] keys_distinct)
  with d l show "\<exists>docs. createChunkedDocuments baseId s opts meta = Some docs
           \<and> length docs = length cks
           \<and> (cks = [] \<longrightarrow> docs = [])
           \<and> (\<forall>i<length cks.
                 doc_id (docs ! i) = baseId @ str ''_chunk_'' @ decimal (i + 1)
               \<and> doc_text (docs ! i) = c_text (cks ! i)
               \<and> metadata (docs ! i) (str ''parent_doc_id'') = Some (VStr baseId)
               \<and> metadata (docs ! i) (str ''chunk_index'') = Some (VNum (int i + 1))
               \<and> metadata (docs ! i) (str ''total_chunks'') = Some (VNum (int (length cks))))"
    by auto
qed

theorem createChunkedDocuments_lineage_witness:
  "chunkText (str ''Para one.\<newline>\<newline>Para two.'')
       \<lparr>mode = Some (str ''semantic''), chunkSize = None, overlap = None\<rparr>
     = Some [\<lparr>c_text = str ''Para one.'', c_index = 0\<rparr>, \<lparr>c_text = str ''Para two.'', c_index = 1\<rparr>]
   \<and> map_option (map doc_id)
        (createChunkedDocuments (str ''doc1'') (str ''Para one.\<newline>\<newline>Para two.'')
           \<lparr>mode = Some (str ''semantic''), chunkSize = None, overlap = None\<rparr>
           [str ''source'' \<mapsto> VStr (str ''test'') :: unit jsvalue])
     = Some [str ''doc1_chunk_1'', str ''doc1_chunk_2'']"
proof -
  let ?s = "str ''Para one.\<newline>\<newline>Para two.''"
  let ?opts = "\<lparr>mode = Some (str ''semantic''), chunkSize = None, overlap = None\<rparr>"
  let ?meta = "[str ''source'' \<mapsto> VStr (str ''test'') :: unit jsvalue]"
  let ?cks = "[\<lparr>c_text = str ''Para one.'', c_index = 0\<rparr>, \<lparr>c_text = str ''Para two.'', c_index = 1\<rparr>]"
  have c: "chunkText ?s ?opts = Some ?cks" by code_simp
  from c createChunkedDocuments_lineage[of ?s ?opts "str ''doc1''" ?meta ?cks]
  obtain docs where d: "createChunkedDocuments (str ''doc1'') ?s ?opts ?meta = Some docs"
    and l: "length docs = 2"
    and i0: "doc_id (docs ! 0) = str ''doc1'' @ str ''_chunk_'' @ decimal (0 + 1)"
    and i1: "doc_id (docs ! 1) = str ''doc1'' @ str ''_chunk_'' @ decimal (1 + 1)"
    by auto
  have n0: "str ''doc1'' @ str ''_chunk_'' @ decimal (0 + 1) = str ''doc1_chunk_1''"
    and n1: "str ''doc1'' @ str ''_chunk_'' @ decimal (1 + 1) = str ''doc1_chunk_2''"
    by code_simp+
  from l obtain a b where "docs = [a, b]"
    by (cases docs; cases "tl docs") auto
  with i0 i1 have "map doc_id docs = [str ''doc1_chunk_1'', str ''doc1_chunk_2'']"
    unfolding n0 n1 by simp
  with c d show ?thesis by simp
qed

subsection \<open>C7: lineage fields win over base metadata\<close>

text \<open>
  C7: for every \<open>baseMetadata\<close>, also one that has keys named \<open>parent_doc_id\<close>,
  \<open>chunk_index\<close>, \<open>total_chunks\<close> or \<open>chunk_mode\<close>, the metadata of each document is
  \<open>baseMetadata\<close> overwritten by the four lineage fields: the lineage values win, every
  other field of \<open>baseMetadata\<close> is kept.
\<close>

theorem metadata_lineage_wins:
  assumes "createChunkedDocuments baseId s opts meta = Some docs" and "i < length docs"
  shows "metadata (docs ! i) =
           meta ++ lineage baseId (i + 1) (length docs) (str_or (mode opts) (str ''configurable''))"
proof -
  from assms(1) obtain cks where c: "chunkText s opts = Some cks"
    by (cases "chunkText s opts") (simp_all add: createChunkedDocuments_def)
  from length_docs[OF c assms(1)] have l: "length docs = length cks" .
  with assms(2) have "i < length cks" by simp
  from nth_docs[OF c this assms(1)] show ?thesis
    by (simp add: lineage_def l)
qed

theorem metadata_lineage_wins_witness:
  "metadata (the (createChunkedDocuments (str ''doc1'') (str ''Para one.\<newline>\<newline>Para two.'')
           \<lparr>mode = Some (str ''semantic''), chunkSize = None, overlap = None\<rparr>
           [str ''chunk_index'' \<mapsto> VStr (str ''bogus''), str ''source'' \<mapsto> VStr (str ''test'') :: unit jsvalue]) ! 0)
       (str ''chunk_index'') = Some (VNum 1)
   \<and> metadata (the (createChunkedDocuments (str ''doc1'') (str ''Para one.\<newline>\<newline>Para two.'')
           \<lparr>mode = Some (str ''semantic''), chunkSize = None, overlap = None\<rparr>
           [str ''chunk_index'' \<mapsto> VStr (str ''bogus''), str ''source'' \<mapsto> VStr (str ''test'') :: unit jsvalue]) ! 0)
       (str ''source'') = Some (VStr (str ''test''))"
proof -
  let ?s = "str ''Para one.\<newline>\<newline>Para two.''"
  let ?opts = "\<lparr>mode = Some (str ''semantic''), chunkSize = None, overlap = None\<rparr>"
  let ?meta = "[str ''chunk_index'' \<mapsto> VStr (str ''bogus''), str ''source'' \<mapsto> VStr (str ''test'') :: unit jsvalue]"
  let ?cks = "[\<lparr>c_text = str ''Para one.'', c_index = 0\<rparr>, \<lparr>c_text = str ''Para two.'', c_index = 1\<rparr>]"
  let ?docs = "the (createChunkedDocuments (str ''doc1'') ?s ?opts ?meta)"
  have c: "chunkText ?s ?opts = Some ?cks" by code_simp
  then have d: "createChunkedDocuments (str ''doc1'') ?s ?opts ?meta = Some ?docs"
    using docs_defined[of "str ''doc1''" ?s ?opts ?meta] by auto
  from length_docs[OF c d] have i: "0 < length ?docs" by simp
  have k: "str ''source'' \<noteq> str ''parent_doc_id''" "str ''source'' \<noteq> str ''chunk_index''"
    "str ''source'' \<noteq> str ''total_chunks''" "str ''source'' \<noteq> str ''chunk_mode''"
    by (simp_all add: str_def)
  from metadata_lineage_wins[OF d i] show ?thesis
    by (simp add: lineage_def map_add_def keys_distinct k)
qed

subsection \<open>C8: the mode used and the mode recorded\<close>

text \<open>
  C8 as it stands fails for a mode that is neither absent nor one of the two names: the
  chunking is the configurable one, and the documents record the mode as it was given.
\<close>

theorem chunk_mode_unrecognized_counterexample:
  "map_option (map chunk_mode_of)
     (createChunkedDocuments (str ''doc1'') (str ''abc'')
        \<lparr>mode = Some (str ''fancy''), chunkSize = Some 2, overlap = Some (- 1)\<rparr>
        (Map.empty :: jsstring \<rightharpoonup> unit jsvalue))
     = Some [Some (VStr (str ''fancy''))]
   \<and> mode_used \<lparr>mode = Some (str ''fancy''), chunkSize = Some 2, overlap = Some (- 1)\<rparr> = str ''configurable''
   \<and> str ''fancy'' \<noteq> str ''semantic'' \<and> str ''fancy'' \<noteq> str ''configurable''"
  by code_simp

text \<open>
  C8, amended: for every options value, when \<open>options.mode\<close> is anything but
  \<open>"semantic"\<close>, chunking behaves as configurable mode; every document produced by
  \<open>createChunkedDocuments\<close> has \<open>chunk_mode\<close> equal to \<open>options.mode\<close> when that is a
  non-empty string and to \<open>"configurable"\<close> otherwise; this is the mode that was used,
  \<open>"semantic"\<close> or \<open>"configurable"\<close>, whenever \<open>options.mode\<close> is absent, empty or one
  of these two names.
\<close>

theorem chunk_mode_recorded:
  "(mode opts \<noteq> Some (str ''semantic'') \<longrightarrow>
       chunkText s opts = configurableChunk s opts
     \<and> chunkText s opts = chunkText s (opts\<lparr>mode := Some (str ''configurable'')\<rparr>))
   \<and> (createChunkedDocuments baseId s opts meta = Some docs \<and> i < length docs \<longrightarrow>
        chunk_mode_of (docs ! i) = Some (VStr (str_or (mode opts) (str ''configurable''))))
   \<and> (mode opts = None \<or> mode opts = Some [] \<or> mode opts = Some (str ''semantic'')
        \<or> mode opts = Some (str ''configurable'') \<longrightarrow>
        str_or (mode opts) (str ''configurable'') = mode_used opts)
   \<and> (mode_used opts = str ''semantic'' \<or> mode_used opts = str ''configurable'')"
proof (intro conjI impI)
  assume m: "mode opts \<noteq> Some (str ''semantic'')"
  have c: "str_or (Some (str ''configurable'')) (str ''configurable'') \<noteq> str ''semantic''"
    by (simp add: str_or_def str_def)
  from mode_configurable[OF m] show "chunkText s opts = configurableChunk s opts"
    by (simp add: chunkText_def)
  from mode_configurable[OF m] c
  show "chunkText s opts = chunkText s (opts\<lparr>mode := Some (str ''configurable'')\<rparr>)"
    by (simp add: chunkText_def configurableChunk_def)
next
  assume a: "createChunkedDocuments baseId s opts meta = Some docs \<and> i < length docs"
  then obtain cks where c: "chunkText s opts = Some cks"
    by (cases "chunkText s opts") (simp_all add: createChunkedDocuments_def)
  from a have d: "createChunkedDocuments baseId s opts meta = Some docs" and i: "i < length docs"
    by simp_all
  from length_docs[OF c d] i have "i < length cks" by simp
  from nth_docs[OF c this d]
  show "chunk_mode_of (docs ! i) = Some (VStr (str_or (mode opts) (str ''configurable'')))"
    by (simp add: chunk_mode_of_def)
next
  assume "mode opts = None \<or> mode opts = Some [] \<or> mode opts = Some (str ''semantic'')
        \<or> mode opts = Some (str ''configurable'')"
  then show "str_or (mode opts) (str ''configurable'') = mode_used opts"
    by (auto simp: mode_used_def str_or_def str_def)
next
  show "mode_used opts = str ''semantic'' \<or> mode_used opts = str ''configurable''"
    by (rule mode_used_cases)
qed

theorem chunk_mode_recorded_witness:
  "chunkText (str ''  '') \<lparr>mode = Some (str ''fancy''), chunkSize = None, overlap = None\<rparr>
     = configurableChunk (str ''  '') \<lparr>mode = Some (str ''fancy''), chunkSize = None, overlap = None\<rparr>
   \<and> chunk_mode_of (the (createChunkedDocuments (str ''doc1'') (str ''Para one.\<newline>\<newline>Para two.'')
           \<lparr>mode = Some (str ''semantic''), chunkSize = None, overlap = None\<rparr>
           [str ''source'' \<mapsto> VStr (str ''test'') :: unit jsvalue]) ! 0)
       = Some (VStr (str ''semantic''))
   \<and> str ''semantic'' = mode_used \<lparr>mode = Some (str ''semantic''), chunkSize = None, overlap = None\<rparr>"
proof -
  let ?s = "str ''Para one.\<newline>\<newline>Para two.''"
  let ?opts = "\<lparr>mode = Some (str ''semantic''), chunkSize = None, overlap = None\<rparr>"
  let ?fancy = "\<lparr>mode = Some (str ''fancy''), chunkSize = None, overlap = None\<rparr>"
  let ?meta = "[str ''source'' \<mapsto> VStr (str ''test'') :: unit jsvalue]"
  let ?cks = "[\<lparr>c_text = str ''Para one.'', c_index = 0\<rparr>, \<lparr>c_text = str ''Para two.'', c_index = 1\<rparr>]"
  let ?docs = "the (createChunkedDocuments (str ''doc1'') ?s ?opts ?meta)"
  have f: "mode ?fancy \<noteq> Some (str ''semantic'')" by (simp add: str_def)
  have c: "chunkText ?s ?opts = Some ?cks" by code_simp
  then have d: "createChunkedDocuments (str ''doc1'') ?s ?opts ?meta = Some ?docs"
    using docs_defined[of "str ''doc1''" ?s ?opts ?meta] by auto
  from length_docs[OF c d] have i: "0 < length ?docs" by simp
  have m: "str_or (mode ?opts) (str ''configurable'') = str ''semantic''"
    by (simp add: str_or_def str_def)
  from chunk_mode_recorded[of ?fancy "str ''  ''" "str ''doc1''" ] f
  have 1: "chunkText (str ''  '') ?fancy = configurableChunk (str ''  '') ?fancy"
    by blast
  have ms: "mode ?opts = Some (str ''semantic'')" by simp
  from chunk_mode_recorded[of ?opts ?s "str ''doc1''" ?meta ?docs 0] d i ms
  have 2: "chunk_mode_of (?docs ! 0) = Some (VStr (str_or (mode ?opts) (str ''configurable'')))"
    and 3: "str_or (mode ?opts) (str ''configurable'') = mode_used ?opts"
    by blast+
  from 1 2 3 show ?thesis unfolding m by simp
qed

subsection \<open>C10: defaults by falsiness\<close>

text \<open>
  C10: the numeric options are defaulted when they are falsy, not only when they are
  absent. Passing \<open>overlap = 0\<close> is the same as leaving it out, which is the same as
  passing 50; passing \<open>chunkSize = 0\<close> is the same as leaving it out, which is the same as
  passing 500; in \<open>chunkText\<close> and in \<open>estimateChunks\<close>. So no caller gets an overlap
  of zero.
\<close>

theorem falsy_defaults:
  "chunkText s (opts\<lparr>overlap := Some 0\<rparr>) = chunkText s (opts\<lparr>overlap := None\<rparr>)
   \<and> chunkText s (opts\<lparr>overlap := None\<rparr>) = chunkText s (opts\<lparr>overlap := Some 50\<rparr>)
   \<and> chunkText s (opts\<lparr>chunkSize := Some 0\<rparr>) = chunkText s (opts\<lparr>chunkSize := None\<rparr>)
   \<and> chunkText s (opts\<lparr>chunkSize := None\<rparr>) = chunkText s (opts\<lparr>chunkSize := Some 500\<rparr>)
   \<and> estimateChunks s (opts\<lparr>overlap := Some 0\<rparr>) = estimateChunks s (opts\<lparr>overlap := None\<rparr>)
   \<and> estimateChunks s (opts\<lparr>overlap := None\<rparr>) = estimateChunks s (opts\<lparr>overlap := Some 50\<rparr>)
   \<and> estimateChunks s (opts\<lparr>chunkSize := Some 0\<rparr>) = estimateChunks s (opts\<lparr>chunkSize := None\<rparr>)
   \<and> estimateChunks s (opts\<lparr>chunkSize := None\<rparr>) = estimateChunks s (opts\<lparr>chunkSize := Some 500\<rparr>)"
  by (simp add: chunkText_def configurableChunk_def estimateChunks_def num_or_def Let_def)

end
